theory Spec2Isabelle
  imports Main "HOL-Library.Word"
begin

section \<open>Bytes and the formatting verbs of the library\<close>

text \<open>
  A Go string is a sequence of bytes; it is modelled as \<open>string\<close>, a list of 8-bit
  characters. The program prints with \<open>fmt.Printf\<close>; standard output is modelled as the
  string written.
\<close>

definition newline :: char where
  "newline = CHR 0x0A"

definition squote :: char where
  "squote = CHR 0x27"

definition dquote :: char where
  "dquote = CHR 0x22"

definition spaces :: "nat \<Rightarrow> string" where
  \<comment> \<open>\<open>strings.Repeat(" ", n)\<close>\<close>
  "spaces n = replicate n (CHR '' '')"

definition digitChar :: "nat \<Rightarrow> char" where
  "digitChar d = char_of (48 + d)"

fun showNat :: "nat \<Rightarrow> string" where
  "showNat n = (if n < 10 then [digitChar n] else showNat (n div 10) @ [digitChar (n mod 10)])"

declare showNat.simps [simp del]

definition fmtD :: "int \<Rightarrow> string" where
  \<comment> \<open>the verb \<open>%d\<close>: decimal digits, a minus sign in front of a negative number\<close>
  "fmtD i = (if i < 0 then CHR ''-'' # showNat (nat (- i)) else showNat (nat i))"

definition padRight4 :: "string \<Rightarrow> string" where
  \<comment> \<open>the verb \<open>%-4s\<close>: the string, padded with spaces on the right to width 4\<close>
  "padRight4 s = s @ spaces (4 - length s)"

section \<open>Reply values\<close>

text \<open>
  The value \<open>client.Do(...).Result()\<close> returns is an \<open>interface{}\<close>; the renderers
  switch on its dynamic type. \<open>Other\<close> stands for every type the switches do not name and
  carries the text the verb \<open>%+v\<close> gives for it.
\<close>

datatype reply =
    Int64 "64 word"
  | Str string
  | Bytes string
  | Nil
  | Err string
  | Arr "reply list"
  | Other string

section \<open>The reply renderers\<close>

text \<open>
  \<open>printStdReply\<close> and \<open>printRawReply\<close>, with the loop over the elements of a sequence
  as a recursion that carries the index \<open>i\<close> and the length \<open>n\<close> of the whole sequence.
  The first argument is the verb \<open>%q\<close> of the formatting library on a byte slice.
\<close>

fun printStdReply :: "(string \<Rightarrow> string) \<Rightarrow> nat \<Rightarrow> reply \<Rightarrow> string"
  and printStdElems :: "(string \<Rightarrow> string) \<Rightarrow> nat \<Rightarrow> nat \<Rightarrow> nat \<Rightarrow> reply list \<Rightarrow> string" where
  "printStdReply q level (Int64 w) = ''(integer) '' @ fmtD (sint w)"
| "printStdReply q level (Str s) = s"
| "printStdReply q level (Bytes b) = q b"
| "printStdReply q level Nil = ''(nil)''"
| "printStdReply q level (Err e) = ''(error) '' @ e"
| "printStdReply q level (Arr vs) = printStdElems q level 0 (length vs) vs"
| "printStdReply q level (Other t) = ''Unknown reply type: '' @ t"
| "printStdElems q level i n [] = []"
| "printStdElems q level i n (v # vs) =
     (if i \<noteq> 0 then spaces (level * 4) else []) @
     padRight4 (fmtD (int (i + 1)) @ '') '') @
     printStdReply q (level + 1) v @
     (if int i \<noteq> int n - 1 then [newline] else []) @
     printStdElems q level (i + 1) n vs"

fun printRawReply :: "nat \<Rightarrow> reply \<Rightarrow> string"
  and printRawElems :: "nat \<Rightarrow> nat \<Rightarrow> nat \<Rightarrow> reply list \<Rightarrow> string" where
  "printRawReply level (Int64 w) = fmtD (sint w)"
| "printRawReply level (Str s) = s"
| "printRawReply level (Bytes b) = b"
| "printRawReply level Nil = []"
| "printRawReply level (Err e) = e @ [newline]"
| "printRawReply level (Arr vs) = printRawElems level 0 (length vs) vs"
| "printRawReply level (Other t) = ''Unknown reply type: '' @ t"
| "printRawElems level i n [] = []"
| "printRawElems level i n (v # vs) =
     (if i \<noteq> 0 then spaces (level * 4) else []) @
     printRawReply (level + 1) v @
     (if int i \<noteq> int n - 1 then [newline] else []) @
     printRawElems level (i + 1) n vs"

definition stdMode :: int where
  "stdMode = 0"

definition rawMode :: int where
  "rawMode = 1"

definition printReply :: "(string \<Rightarrow> string) \<Rightarrow> nat \<Rightarrow> reply \<Rightarrow> int \<Rightarrow> string" where
  "printReply q level r m =
     (if m = stdMode then printStdReply q level r
      else if m = rawMode then printRawReply level r
      else printStdReply q level r)"

fun printInfo :: "reply \<Rightarrow> string" where
  "printInfo (Bytes b) = b"
| "printInfo (Err e) = ''(error) '' @ e"
| "printInfo r = []"

section \<open>Library functions the program calls\<close>

subsection \<open>\<open>strings.ToLower\<close>\<close>

definition isASCII :: "char \<Rightarrow> bool" where
  "isASCII c = ((of_char c :: nat) < 128)"

definition lowerByte :: "char \<Rightarrow> char" where
  "lowerByte c = (if (65::nat) \<le> of_char c \<and> (of_char c :: nat) \<le> 90
                  then char_of ((of_char c :: nat) + 32) else c)"

definition ToLower :: "(string \<Rightarrow> string) \<Rightarrow> string \<Rightarrow> string" where
  \<comment> \<open>On a string of ASCII bytes the library maps \<open>A..Z\<close> to \<open>a..z\<close> byte by byte.
      On any other string it maps \<open>unicode.ToLower\<close> over the runes, which needs the
      Unicode tables: that map is the argument \<open>umap\<close>.\<close>
  "ToLower umap s = (if list_all isASCII s then map lowerByte s else umap s)"

subsection \<open>\<open>strings.Join\<close>\<close>

fun join :: "string list \<Rightarrow> string \<Rightarrow> string" where
  "join [] sep = []"
| "join [x] sep = x"
| "join (x # y # ys) sep = x @ sep @ join (y # ys) sep"

subsection \<open>\<open>strconv.Atoi\<close>, for a 64-bit \<open>int\<close>\<close>

datatype numError = ErrSyntax | ErrRange

definition isDigit :: "char \<Rightarrow> bool" where
  "isDigit c = ((48::nat) \<le> of_char c \<and> (of_char c :: nat) \<le> 57)"

definition digitVal :: "char \<Rightarrow> nat" where
  "digitVal c = of_char c - 48"

definition maxUint64 :: nat where
  "maxUint64 = 2 ^ 64 - 1"

fun parseUintLoop :: "nat \<Rightarrow> string \<Rightarrow> nat \<times> numError option" where
  \<comment> \<open>the digit loop of \<open>ParseUint(s, 10, 64)\<close>: a byte that is no digit is a syntax
      error, an overflow of the 64-bit accumulator is a range error, whichever the scan
      from the left meets first\<close>
  "parseUintLoop n [] = (n, None)"
| "parseUintLoop n (c # cs) =
     (if \<not> isDigit c then (0, Some ErrSyntax)
      else if n \<ge> maxUint64 div 10 + 1 then (maxUint64, Some ErrRange)
      else if n * 10 + digitVal c > maxUint64 then (maxUint64, Some ErrRange)
      else parseUintLoop (n * 10 + digitVal c) cs)"

definition ParseUint :: "string \<Rightarrow> nat \<times> numError option" where
  "ParseUint s = (if s = [] then (0, Some ErrSyntax) else parseUintLoop 0 s)"

definition ParseInt :: "string \<Rightarrow> int \<times> numError option" where
  \<comment> \<open>\<open>ParseInt(s, 10, 0)\<close>: on a range error the value is the nearest 64-bit integer\<close>
  "ParseInt s =
     (if s = [] then (0, Some ErrSyntax)
      else
        let neg = (hd s = CHR ''-'');
            s1 = (if hd s = CHR ''+'' \<or> hd s = CHR ''-'' then tl s else s);
            (un, err) = ParseUint s1
        in if err = Some ErrSyntax then (0, Some ErrSyntax)
           else if \<not> neg \<and> un \<ge> 2 ^ 63 then (2 ^ 63 - 1, Some ErrRange)
           else if neg \<and> un > 2 ^ 63 then (- (2 ^ 63), Some ErrRange)
           else ((if neg then - int un else int un), None))"

fun atoiLoop :: "nat \<Rightarrow> string \<Rightarrow> nat option" where
  "atoiLoop n [] = Some n"
| "atoiLoop n (c # cs) = (if isDigit c then atoiLoop (n * 10 + digitVal c) cs else None)"

definition Atoi :: "string \<Rightarrow> int \<times> numError option" where
  \<comment> \<open>the pair \<open>(value, error)\<close> it returns; strings of 1 to 18 bytes take the fast path\<close>
  "Atoi s =
     (if 0 < length s \<and> length s < 19 then
        let s1 = (if hd s = CHR ''-'' \<or> hd s = CHR ''+'' then tl s else s)
        in if length s1 < 1 then (0, Some ErrSyntax)
           else (case atoiLoop 0 s1 of
                   None \<Rightarrow> (0, Some ErrSyntax)
                 | Some n \<Rightarrow> ((if hd s = CHR ''-'' then - int n else int n), None))
      else ParseInt s)"

subsection \<open>The verb \<open>%q\<close> on bytes\<close>

definition hexDigit :: "nat \<Rightarrow> char" where
  "hexDigit d = (if d < 10 then char_of (48 + d) else char_of (87 + d))"

definition quoteByte :: "char \<Rightarrow> string" where
  "quoteByte c =
     (let n = (of_char c :: nat) in
      if c = dquote \<or> c = CHR 0x5C then [CHR 0x5C, c]
      else if 32 \<le> n \<and> n < 127 then [c]
      else if n = 7 then [CHR 0x5C, CHR ''a'']
      else if n = 8 then [CHR 0x5C, CHR ''b'']
      else if n = 12 then [CHR 0x5C, CHR ''f'']
      else if n = 10 then [CHR 0x5C, CHR ''n'']
      else if n = 13 then [CHR 0x5C, CHR ''r'']
      else if n = 9 then [CHR 0x5C, CHR ''t'']
      else if n = 11 then [CHR 0x5C, CHR ''v'']
      else [CHR 0x5C, CHR ''x'', hexDigit (n div 16), hexDigit (n mod 16)])"

definition quoteBytes :: "string \<Rightarrow> string" where
  \<comment> \<open>\<open>strconv.Quote\<close> on a string with no multi-byte UTF-8 sequence in it: a byte from
      0x80 up is written \<open>\xhh\<close>, as the library writes a byte that is not valid UTF-8.
      The renderers take the verb as an argument; this is the instance the concrete
      examples use.\<close>
  "quoteBytes s = dquote # concat (map quoteByte s) @ [dquote]"

section \<open>The tokenizer\<close>

text \<open>
  \<open>reg.FindAllString(cmd, -1)\<close> for the expression \<open>'.*?'|".*?"|\S+\<close>: the successive
  leftmost matches, the alternatives tried in their order at each start. A match can only
  start at a byte that is not white space; there a quote followed later by the same quote,
  with no newline in between, gives the shortest such span, and anything else the longest
  run of bytes that are not white space. \<open>\S\<close> is any byte but tab, newline, form feed,
  carriage return and space; \<open>.\<close> is any byte but newline.
\<close>

definition isSpace :: "char \<Rightarrow> bool" where
  "isSpace c = (c = CHR 0x09 \<or> c = CHR 0x0A \<or> c = CHR 0x0C \<or> c = CHR 0x0D \<or> c = CHR 0x20)"

definition quotedSpan :: "char \<Rightarrow> string \<Rightarrow> (string \<times> string) option" where
  \<comment> \<open>after an opening quote: the body up to the next such quote and what follows it\<close>
  "quotedSpan qc s =
     (case dropWhile (\<lambda>c. c \<noteq> qc \<and> c \<noteq> newline) s of
        [] \<Rightarrow> None
      | c # rest \<Rightarrow>
          if c = qc then Some (takeWhile (\<lambda>c. c \<noteq> qc \<and> c \<noteq> newline) s, rest) else None)"

function findAllString :: "string \<Rightarrow> string list" where
  "findAllString [] = []"
| "findAllString (c # cs) =
     (if isSpace c then findAllString cs
      else
        (case (if c = squote \<or> c = dquote then quotedSpan c cs else None) of
           Some (body, rest) \<Rightarrow> (c # body @ [c]) # findAllString rest
         | None \<Rightarrow>
             (c # takeWhile (\<lambda>d. \<not> isSpace d) cs) #
             findAllString (dropWhile (\<lambda>d. \<not> isSpace d) cs)))"
  by pat_completeness auto
termination
proof (relation "measure length")
  show "wf (measure length)" by simp
next
  fix c :: char and cs
  show "(cs, c # cs) \<in> measure length" by simp
next
  fix c :: char and cs x2 body rest
  assume "(if c = squote \<or> c = dquote then quotedSpan c cs else None) = Some x2"
    and "(body, rest) = x2"
  then have "quotedSpan c cs = Some (body, rest)"
    by (auto split: if_splits)
  moreover have "length (dropWhile (\<lambda>x. x \<noteq> c \<and> x \<noteq> newline) cs) \<le> length cs"
    by (rule length_dropWhile_le)
  ultimately have "length rest < length cs"
    by (auto simp: quotedSpan_def split: list.splits if_splits)
  then show "(rest, c # cs) \<in> measure length" by simp
next
  fix c :: char and cs
  have "length (dropWhile (\<lambda>d. \<not> isSpace d) cs) \<le> length cs"
    by (rule length_dropWhile_le)
  then show "(dropWhile (\<lambda>d. \<not> isSpace d) cs, c # cs) \<in> measure length" by simp
qed

section \<open>The session and the store\<close>

text \<open>
  The global variables of the program: the flags that are read after start-up, the
  rendering mode and the connection handle (\<open>None\<close> is the nil pointer; an open handle
  holds the address and the password it was created with).
\<close>

record session =
  hostname :: string
  port :: string
  socket :: string
  auth :: string
  dbn :: int
  mode :: int
  client :: "(string \<times> string) option"

text \<open>
  The store, seen through the client library: the error of the liveness probe, if any, and
  the result of \<open>client.Do(ctx, args...).Result()\<close> for the arguments of one request, an
  error message (\<open>Inl\<close>) or a reply value (\<open>Inr\<close>).
\<close>

record store =
  pingErr :: "string option"
  doResult :: "string list \<Rightarrow> string + reply"

text \<open>
  How a call ends: it returns, it ends the process through \<open>os.Exit\<close> with a code, or it
  panics. A function that prints gives the text it wrote to standard output; one that
  sends commands gives the argument lists of its \<open>client.Do\<close> calls, in order.
\<close>

datatype 'a outcome = Return 'a | Exit int | Panic string

definition addr :: "session \<Rightarrow> string" where
  "addr st = (if length (socket st) > 0 then socket st else hostname st @ '':'' @ port st)"

definition sendPing :: "store \<Rightarrow> string \<times> string option" where
  "sendPing S = (case pingErr S of Some e \<Rightarrow> (e @ [newline], Some e) | None \<Rightarrow> ([], None))"

definition cliConnect :: "store \<Rightarrow> session \<Rightarrow> string \<times> session outcome" where
  "cliConnect S st =
     (if client st = None then
        let st1 = st\<lparr>client := Some (addr st, auth st)\<rparr>;
            (out, err) = sendPing S
        in if err \<noteq> None then (out, Exit 1) else (out, Return st1)
      else ([], Return st))"

definition cliSendCommand ::
  "(string \<Rightarrow> string) \<Rightarrow> (string \<Rightarrow> string) \<Rightarrow> store \<Rightarrow> string list \<Rightarrow> session \<Rightarrow>
   string \<times> string list list \<times> (int \<times> session) outcome" where
  "cliSendCommand umap q S cmds st =
     (case cliConnect S st of
        (out0, Exit code) \<Rightarrow> (out0, [], Exit code)
      | (out0, Panic msg) \<Rightarrow> (out0, [], Panic msg)
      | (out0, Return st1) \<Rightarrow>
          if length cmds = 0 then (out0, [], Return (0, st1))
          else
            let arg = [];
                cmd = ToLower umap (cmds ! 0);
                req = [cmd, arg];
                res = doResult S req;
                sel = (\<not> isl res \<and> ToLower umap cmd = ''select'')
            in
            if sel \<and> \<not> 1 < length cmds then
              (out0, [req], Panic ''index out of range [1] with length 1'')
            else
              let st2 = (if sel then st1\<lparr>dbn := fst (Atoi (cmds ! 1))\<rparr> else st1) in
              (case res of
                 Inl e \<Rightarrow> (out0 @ ''(error) '' @ e @ [newline], [req], Return (- 1, st2))
               | Inr r \<Rightarrow>
                   (out0 @
                    (if cmd = ''info'' then printInfo r else printReply q 0 r (mode st2)) @
                    [newline],
                    [req], Return (0, st2))))"

definition noninteractive ::
  "(string \<Rightarrow> string) \<Rightarrow> (string \<Rightarrow> string) \<Rightarrow> store \<Rightarrow> string list \<Rightarrow> session \<Rightarrow>
   string \<times> string list list \<times> (int \<times> session) outcome" where
  "noninteractive umap q S args st = cliSendCommand umap q S args st"

text \<open>
  \<open>main\<close> on the path where positional arguments are given (\<open>flag.NArg()\<close> is not 0): the
  mode is set from the flag \<open>-raw\<close> and the process ends with the code that
  \<open>noninteractive\<close> returns. The result is the output, the requests sent, and how the
  process ends: \<open>Inl\<close> the code handed to \<open>os.Exit\<close>, \<open>Inr\<close> the message of a panic.
\<close>

definition mainArgs ::
  "(string \<Rightarrow> string) \<Rightarrow> (string \<Rightarrow> string) \<Rightarrow> store \<Rightarrow> bool \<Rightarrow> string list \<Rightarrow> session \<Rightarrow>
   string \<times> string list list \<times> (int + string)" where
  "mainArgs umap q S outputRaw args st =
     (let st0 = st\<lparr>mode := (if outputRaw then rawMode else stdMode)\<rparr> in
      case noninteractive umap q S args st0 of
        (out, reqs, Return (code, st1)) \<Rightarrow> (out, reqs, Inl code)
      | (out, reqs, Exit code) \<Rightarrow> (out, reqs, Inl code)
      | (out, reqs, Panic msg) \<Rightarrow> (out, reqs, Inr msg))"

section \<open>The mode switch and the history\<close>

definition usage :: string where
  "usage = ''invalid args. Should be MODE [raw|std]'' @ [newline]"

definition switchMode :: "(string \<Rightarrow> string) \<Rightarrow> string list \<Rightarrow> session \<Rightarrow> string \<times> session" where
  "switchMode umap args st =
     (if length args \<noteq> 1 then (usage, st)
      else
        let m = ToLower umap (args ! 0) in
        if m \<noteq> ''raw'' \<and> m \<noteq> ''std'' then (usage, st)
        else if m = ''std'' then ([], st\<lparr>mode := stdMode\<rparr>)
        else if m = ''raw'' then ([], st\<lparr>mode := rawMode\<rparr>)
        else ([], st))"

definition historyMask :: string where
  "historyMask = ''******''"

definition appendHistory :: "(string \<Rightarrow> string) \<Rightarrow> string list \<Rightarrow> string" where
  \<comment> \<open>the entry handed to \<open>line.AppendHistory\<close>\<close>
  "appendHistory umap cmds =
     (let cloneCmds = cmds;
          cloneCmds1 = (if length cloneCmds = 2 \<and> ToLower umap (cloneCmds ! 0) = ''auth''
                        then cloneCmds[1 := historyMask] else cloneCmds);
          cloneCmds2 = (if length cloneCmds1 = 4 \<and> ToLower umap (cloneCmds1 ! 0) = ''connect''
                        then cloneCmds1[3 := historyMask] else cloneCmds1)
      in join cloneCmds2 '' '')"

section \<open>Notions used to state the properties\<close>

text \<open>
  The session a process starts with when no flag and no environment variable is given,
  a store that answers the probe and every request with the status \<open>OK\<close>, and a store
  that answers every request with an error.
\<close>

definition defaultSession :: session where
  "defaultSession =
     \<lparr>hostname = ''127.0.0.1'', port = ''6379'', socket = [], auth = [],
      dbn = 0, mode = stdMode, client = None\<rparr>"

definition okStore :: store where
  "okStore = \<lparr>pingErr = None, doResult = (\<lambda>req. Inr (Str ''OK''))\<rparr>"

definition errStore :: store where
  "errStore = \<lparr>pingErr = None, doResult = (\<lambda>req. Inl ''ERR invalid DB index'')\<rparr>"

definition connected :: "session \<Rightarrow> session" where
  \<comment> \<open>the session after a \<open>cliConnect\<close> that returns\<close>
  "connected st = (if client st = None then st\<lparr>client := Some (addr st, auth st)\<rparr> else st)"

fun isPanic :: "'a outcome \<Rightarrow> bool" where
  "isPanic (Panic m) = True"
| "isPanic r = False"

text \<open>
  The shapes of a token. \<open>quotedBy qc t\<close>: the token is a span from a quote to the next
  such quote on the same line. \<open>noSpace t\<close>: no byte of the token is white space.
\<close>

definition quotedBy :: "char \<Rightarrow> string \<Rightarrow> bool" where
  "quotedBy qc t =
     (2 \<le> length t \<and> hd t = qc \<and> last t = qc \<and>
      qc \<notin> set (butlast (tl t)) \<and> newline \<notin> set (butlast (tl t)))"

definition noSpace :: "string \<Rightarrow> bool" where
  "noSpace t = list_all (\<lambda>c. \<not> isSpace c) t"

text \<open>
  Following the spec's words, for comparison with \<open>findAllString\<close>: the maximal runs of
  non-whitespace characters of a line, from left to right.
\<close>

function maximalRuns :: "string \<Rightarrow> string list" where
  "maximalRuns [] = []"
| "maximalRuns (c # cs) =
     (if isSpace c then maximalRuns cs
      else (c # takeWhile (\<lambda>d. \<not> isSpace d) cs) #
           maximalRuns (dropWhile (\<lambda>d. \<not> isSpace d) cs))"
  by pat_completeness auto
termination
proof (relation "measure length")
  show "wf (measure length)" by simp
next
  fix c :: char and cs
  show "(cs, c # cs) \<in> measure length" by simp
next
  fix c :: char and cs
  have "length (dropWhile (\<lambda>d. \<not> isSpace d) cs) \<le> length cs"
    by (rule length_dropWhile_le)
  then show "(dropWhile (\<lambda>d. \<not> isSpace d) cs, c # cs) \<in> measure length" by simp
qed

section \<open>Properties of the renderers\<close>

text \<open>
  The loop over a sequence, in closed form: the output is the concatenation, over the
  indices of the sequence, of what the loop body prints for each index.
\<close>

lemma printStdElems_closed:
  "n = i + length vs \<Longrightarrow> printStdElems q level i n vs =
   concat (map (\<lambda>j. (if j \<noteq> 0 then spaces (4 * level) else []) @
     padRight4 (fmtD (int j + 1) @ '') '') @
     printStdReply q (level + 1) (vs ! (j - i)) @
     (if j + 1 \<noteq> n then [newline] else [])) [i..<n])"
proof (induction vs arbitrary: i)
  case Nil
  then show ?case by simp
next
  case (Cons v vs)
  define f where "f = (\<lambda>ws k j. (if j \<noteq> 0 then spaces (4 * level) else []) @
     padRight4 (fmtD (int j + 1) @ '') '') @
     printStdReply q (level + 1) (ws ! (j - k)) @
     (if j + 1 \<noteq> n then [newline] else []))"
  have n: "n = Suc i + length vs" using Cons.prems by simp
  have lt: "i < n" using n by simp
  have up: "[i..<n] = i # [Suc i..<n]" using lt by (rule upt_conv_Cons)
  have m: "map (f (v # vs) i) [Suc i..<n] = map (f vs (Suc i)) [Suc i..<n]"
    by (rule map_cong) (auto simp: f_def Suc_diff_le)
  have ih: "printStdElems q level (Suc i) n vs = concat (map (f vs (Suc i)) [Suc i..<n])"
    using Cons.IH [OF n] by (simp add: f_def)
  have hd: "(if i \<noteq> 0 then spaces (level * 4) else []) @
     padRight4 (fmtD (int (i + 1)) @ '') '') @
     printStdReply q (level + 1) v @
     (if int i \<noteq> int n - 1 then [newline] else []) = f (v # vs) i i"
    using lt by (auto simp: f_def mult.commute add.commute)
  have "printStdElems q level i n (v # vs) = f (v # vs) i i @ printStdElems q level (Suc i) n vs"
    using hd by simp
  also have "\<dots> = concat (map (f (v # vs) i) [i..<n])"
    by (simp only: up ih m list.map concat.simps)
  finally show ?case by (simp only: f_def)
qed

lemma printRawElems_closed:
  "n = i + length vs \<Longrightarrow> printRawElems level i n vs =
   concat (map (\<lambda>j. (if j \<noteq> 0 then spaces (4 * level) else []) @
     printRawReply (level + 1) (vs ! (j - i)) @
     (if j + 1 \<noteq> n then [newline] else [])) [i..<n])"
proof (induction vs arbitrary: i)
  case Nil
  then show ?case by simp
next
  case (Cons v vs)
  define f where "f = (\<lambda>ws k j. (if j \<noteq> 0 then spaces (4 * level) else []) @
     printRawReply (level + 1) (ws ! (j - k)) @
     (if j + 1 \<noteq> n then [newline] else []))"
  have n: "n = Suc i + length vs" using Cons.prems by simp
  have lt: "i < n" using n by simp
  have up: "[i..<n] = i # [Suc i..<n]" using lt by (rule upt_conv_Cons)
  have m: "map (f (v # vs) i) [Suc i..<n] = map (f vs (Suc i)) [Suc i..<n]"
    by (rule map_cong) (auto simp: f_def Suc_diff_le)
  have ih: "printRawElems level (Suc i) n vs = concat (map (f vs (Suc i)) [Suc i..<n])"
    using Cons.IH [OF n] by (simp add: f_def)
  have hd: "(if i \<noteq> 0 then spaces (level * 4) else []) @
     printRawReply (level + 1) v @
     (if int i \<noteq> int n - 1 then [newline] else []) = f (v # vs) i i"
    using lt by (auto simp: f_def mult.commute)
  have "printRawElems level i n (v # vs) = f (v # vs) i i @ printRawElems level (Suc i) n vs"
    using hd by simp
  also have "\<dots> = concat (map (f (v # vs) i) [i..<n])"
    by (simp only: up ih m list.map concat.simps)
  finally show ?case by (simp only: f_def)
qed

lemma printReply_std: "printReply q L r stdMode = printStdReply q L r"
  by (simp add: printReply_def)

lemma printReply_raw: "printReply q L r rawMode = printRawReply L r"
  by (simp add: printReply_def stdMode_def rawMode_def)

lemma quoteBytes_ends: "hd (quoteBytes b) = dquote \<and> last (quoteBytes b) = dquote"
  by (simp add: quoteBytes_def)

text \<open>
  C2, as the claim states it, fails: in standard mode a text string (a reply of the Go
  type \<open>string\<close>) is printed with the verb \<open>%s\<close>, as it is, with no quotes around it. The
  reply \<open>two\<close> is printed as the three bytes \<open>two\<close>, not as \<open>"two"\<close>.
\<close>

theorem std_text_string_unquoted:
  "printReply quoteBytes 0 (Str ''two'') stdMode = ''two'' \<and>
   printReply quoteBytes 0 (Str ''two'') stdMode \<noteq> quoteBytes ''two'' \<and>
   hd (printReply quoteBytes 0 (Str ''two'') stdMode) \<noteq> dquote"
  by code_simp

text \<open>
  C2, amended: in standard mode, at every nesting level, an integer is printed as
  \<open>(integer) N\<close> with \<open>N\<close> in decimal, nil as \<open>(nil)\<close>, an error as \<open>(error)\<close> and its
  message, a byte string quoted (what the verb \<open>%q\<close> gives for it, which for the library's
  quoting starts and ends with a double quote), and a text string as it is, unquoted.
\<close>

theorem printStdReply_scalars:
  "printReply q L (Int64 w) stdMode = ''(integer) '' @ fmtD (sint w) \<and>
   printReply q L (Bytes b) stdMode = q b \<and>
   printReply q L (Str s) stdMode = s \<and>
   printReply q L Nil stdMode = ''(nil)'' \<and>
   printReply q L (Err e) stdMode = ''(error) '' @ e \<and>
   hd (printReply quoteBytes L (Bytes b) stdMode) = dquote \<and>
   last (printReply quoteBytes L (Bytes b) stdMode) = dquote \<and>
   printReply quoteBytes L (Bytes ''two'') stdMode = [dquote] @ ''two'' @ [dquote] \<and>
   printReply q L (Int64 42) stdMode = ''(integer) 42''"
proof -
  have a: "printReply quoteBytes L (Bytes ''two'') stdMode = [dquote] @ ''two'' @ [dquote]"
    unfolding printReply_std by code_simp
  have b: "printReply q L (Int64 42) stdMode = ''(integer) 42''"
    unfolding printReply_std by code_simp
  show ?thesis
    using a b by (simp add: printReply_std quoteBytes_ends)
qed

text \<open>
  C4: in standard mode a sequence printed at level \<open>L\<close> is the concatenation, element by
  element, of: \<open>4 * L\<close> spaces unless the element is the first; the number of the element
  (from 1) followed by \<open>) \<close>, padded to four columns; the element printed at level
  \<open>L + 1\<close>; and a newline unless the element is the last. The sequence
  \<open>[1, "two", [3, nil]]\<close> gives a list of three entries, the third holding a nested list
  whose second line is indented by four spaces.
\<close>

theorem printStdReply_sequence:
  "printReply q L (Arr vs) stdMode =
     concat (map (\<lambda>i. (if i \<noteq> 0 then spaces (4 * L) else []) @
                       padRight4 (fmtD (int i + 1) @ '') '') @
                       printReply q (L + 1) (vs ! i) stdMode @
                       (if i + 1 \<noteq> length vs then [newline] else []))
                 [0..<length vs]) \<and>
   padRight4 (fmtD 1 @ '') '') = ''1)  '' \<and>
   padRight4 (fmtD 2 @ '') '') = ''2)  '' \<and>
   printReply q 0 (Arr [Int64 1, Str ''two'', Arr [Int64 3, Nil]]) stdMode =
       ''1)  (integer) 1'' @ [newline] @
       ''2)  two'' @ [newline] @
       ''3)  1)  (integer) 3'' @ [newline] @
       ''    2)  (nil)''"
proof -
  have a: "printStdReply q L (Arr vs) =
     concat (map (\<lambda>i. (if i \<noteq> 0 then spaces (4 * L) else []) @
                       padRight4 (fmtD (int i + 1) @ '') '') @
                       printStdReply q (L + 1) (vs ! i) @
                       (if i + 1 \<noteq> length vs then [newline] else []))
                 [0..<length vs])"
    using printStdElems_closed [of "length vs" 0 vs q L] by simp
  have b: "padRight4 (fmtD 1 @ '') '') = ''1)  ''" by code_simp
  have c: "padRight4 (fmtD 2 @ '') '') = ''2)  ''" by code_simp
  have d: "printStdReply q 0 (Arr [Int64 1, Str ''two'', Arr [Int64 3, Nil]]) =
       ''1)  (integer) 1'' @ [newline] @
       ''2)  two'' @ [newline] @
       ''3)  1)  (integer) 3'' @ [newline] @
       ''    2)  (nil)''"
    by code_simp
  show ?thesis
    unfolding printReply_std using a b c d by blast
qed

text \<open>
  C5: in raw mode an integer is printed in decimal with nothing around it, a string (text
  or bytes) as it is, nil as nothing, an error as its message and a newline, and a
  sequence printed at level \<open>L\<close> is the concatenation, element by element, of: \<open>4 * L\<close>
  spaces unless the element is the first; the element printed at level \<open>L + 1\<close>; and a
  newline unless the element is the last. For \<open>[1, "two", [3, nil]]\<close> the nil element
  leaves nothing but the indent of its line.
\<close>

theorem printRawReply_cases:
  "printReply q L (Int64 w) rawMode = fmtD (sint w) \<and>
   printReply q L (Str s) rawMode = s \<and>
   printReply q L (Bytes b) rawMode = b \<and>
   printReply q L Nil rawMode = [] \<and>
   printReply q L (Err e) rawMode = e @ [newline] \<and>
   printReply q L (Arr vs) rawMode =
     concat (map (\<lambda>i. (if i \<noteq> 0 then spaces (4 * L) else []) @
                       printReply q (L + 1) (vs ! i) rawMode @
                       (if i + 1 \<noteq> length vs then [newline] else []))
                 [0..<length vs]) \<and>
   printReply q L (Int64 42) rawMode = ''42'' \<and>
   printReply q 0 (Arr [Int64 1, Str ''two'', Arr [Int64 3, Nil]]) rawMode =
     ''1'' @ [newline] @ ''two'' @ [newline] @ ''3'' @ [newline] @ ''    ''"
proof -
  have a: "printRawReply L (Arr vs) =
     concat (map (\<lambda>i. (if i \<noteq> 0 then spaces (4 * L) else []) @
                       printRawReply (L + 1) (vs ! i) @
                       (if i + 1 \<noteq> length vs then [newline] else []))
                 [0..<length vs])"
    using printRawElems_closed [of "length vs" 0 vs L] by simp
  have b: "printRawReply L (Int64 42) = ''42''" by code_simp
  have c: "printRawReply 0 (Arr [Int64 1, Str ''two'', Arr [Int64 3, Nil]]) =
     ''1'' @ [newline] @ ''two'' @ [newline] @ ''3'' @ [newline] @ ''    ''"
    by code_simp
  have d: "printRawReply L (Int64 w) = fmtD (sint w) \<and> printRawReply L (Str s) = s \<and>
     printRawReply L (Bytes b) = b \<and> printRawReply L Nil = [] \<and>
     printRawReply L (Err e) = e @ [newline]"
    by simp
  show ?thesis
    unfolding printReply_raw using a b c d by blast
qed

section \<open>Properties of the lower-casing, the history and the mode switch\<close>

lemma ToLower_auth: "ToLower umap ''auth'' = ''auth''"
  by (simp add: ToLower_def isASCII_def lowerByte_def)

lemma ToLower_select: "ToLower umap ''select'' = ''select''"
  by (simp add: ToLower_def isASCII_def lowerByte_def)

text \<open>
  C3: an entry of exactly two tokens whose first token is \<open>auth\<close> in any letter case goes
  to the history with its second token replaced by \<open>******\<close>, and an entry of exactly
  four tokens whose first token is \<open>connect\<close> in any letter case with its fourth token so
  replaced. The stored line is then the same whatever the password was. The entry
  \<open>auth mypassword\<close> is stored as \<open>auth ******\<close>.
\<close>

theorem appendHistory_masks:
  "(ToLower umap a = ''auth'' \<longrightarrow>
      appendHistory umap [a, p] = a @ '' '' @ historyMask \<and>
      appendHistory umap [a, p] = appendHistory umap [a, p']) \<and>
   (ToLower umap c = ''connect'' \<longrightarrow>
      appendHistory umap [c, h, pt, pw] = c @ '' '' @ h @ '' '' @ pt @ '' '' @ historyMask \<and>
      appendHistory umap [c, h, pt, pw] = appendHistory umap [c, h, pt, pw']) \<and>
   historyMask = ''******'' \<and>
   appendHistory umap [''auth'', ''mypassword''] = ''auth ******''"
  by (simp add: appendHistory_def ToLower_auth historyMask_def)

theorem appendHistory_masks_witness:
  "ToLower (map lowerByte) ''AUTH'' = ''auth'' \<and>
   appendHistory (map lowerByte) [''AUTH'', ''mypassword''] = ''AUTH ******'' \<and>
   ToLower (map lowerByte) ''Connect'' = ''connect'' \<and>
   appendHistory (map lowerByte) [''Connect'', ''10.0.0.1'', ''6380'', ''secret''] =
     ''Connect 10.0.0.1 6380 ******''"
proof -
  have h1: "ToLower (map lowerByte) ''AUTH'' = ''auth''" by code_simp
  have h2: "ToLower (map lowerByte) ''Connect'' = ''connect''" by code_simp
  show ?thesis
    using h1 h2
      appendHistory_masks [of "map lowerByte" "''AUTH''" "''mypassword''" "''mypassword''"
        "''Connect''" "''10.0.0.1''" "''6380''" "''secret''" "''secret''"]
    by (simp add: historyMask_def)
qed

text \<open>
  C7: given one argument that is \<open>raw\<close> or \<open>std\<close> in any letter case, \<open>switchMode\<close> sets
  the mode accordingly and prints nothing, and replies are rendered in that mode from
  then on; the two modes are different values. Given any other argument list (not exactly
  one argument, or one argument that is neither word) it prints the line
  \<open>invalid args. Should be MODE [raw|std]\<close> and leaves the session as it was.
\<close>

theorem switchMode_cases:
  "(ToLower umap a = ''raw'' \<longrightarrow>
      switchMode umap [a] st = ([], st\<lparr>mode := rawMode\<rparr>) \<and>
      printReply q L r (mode (snd (switchMode umap [a] st))) = printRawReply L r) \<and>
   (ToLower umap a = ''std'' \<longrightarrow>
      switchMode umap [a] st = ([], st\<lparr>mode := stdMode\<rparr>) \<and>
      printReply q L r (mode (snd (switchMode umap [a] st))) = printStdReply q L r) \<and>
   (length args \<noteq> 1 \<longrightarrow>
      switchMode umap args st = (''invalid args. Should be MODE [raw|std]'' @ [newline], st)) \<and>
   (ToLower umap a \<noteq> ''raw'' \<and> ToLower umap a \<noteq> ''std'' \<longrightarrow>
      switchMode umap [a] st = (''invalid args. Should be MODE [raw|std]'' @ [newline], st)) \<and>
   rawMode \<noteq> stdMode \<and>
   usage = ''invalid args. Should be MODE [raw|std]'' @ [newline] \<and>
   usage \<noteq> []"
  by (simp add: switchMode_def usage_def rawMode_def stdMode_def printReply_def)

theorem switchMode_cases_witness:
  "ToLower (map lowerByte) ''RAW'' = ''raw'' \<and>
   switchMode (map lowerByte) [''RAW''] defaultSession = ([], defaultSession\<lparr>mode := rawMode\<rparr>) \<and>
   printReply quoteBytes 0 (Int64 7)
     (mode (snd (switchMode (map lowerByte) [''RAW''] defaultSession))) = ''7'' \<and>
   ToLower (map lowerByte) ''Std'' = ''std'' \<and>
   switchMode (map lowerByte) [''Std''] (defaultSession\<lparr>mode := rawMode\<rparr>) =
     ([], defaultSession\<lparr>mode := stdMode\<rparr>) \<and>
   printReply quoteBytes 0 (Int64 7)
     (mode (snd (switchMode (map lowerByte) [''Std''] (defaultSession\<lparr>mode := rawMode\<rparr>)))) =
     ''(integer) 7'' \<and>
   length [''raw'', ''std''] \<noteq> 1 \<and>
   switchMode (map lowerByte) [''raw'', ''std''] defaultSession =
     (''invalid args. Should be MODE [raw|std]'' @ [newline], defaultSession) \<and>
   ToLower (map lowerByte) ''xyz'' \<noteq> ''raw'' \<and> ToLower (map lowerByte) ''xyz'' \<noteq> ''std'' \<and>
   switchMode (map lowerByte) [''xyz''] defaultSession =
     (''invalid args. Should be MODE [raw|std]'' @ [newline], defaultSession) \<and>
   switchMode (map lowerByte) [] defaultSession =
     (''invalid args. Should be MODE [raw|std]'' @ [newline], defaultSession)"
proof -
  have h1: "ToLower (map lowerByte) ''RAW'' = ''raw''" by code_simp
  have h2: "ToLower (map lowerByte) ''Std'' = ''std''" by code_simp
  have h3: "ToLower (map lowerByte) ''xyz'' \<noteq> ''raw'' \<and> ToLower (map lowerByte) ''xyz'' \<noteq> ''std''"
    by code_simp
  have r7: "printRawReply 0 (Int64 7) = ''7''" by code_simp
  have s7: "printStdReply quoteBytes 0 (Int64 7) = ''(integer) 7''" by code_simp
  note w1 = switchMode_cases [of "map lowerByte" "''RAW''" defaultSession quoteBytes 0 "Int64 7"
      "[''raw'', ''std'']"]
  note w2 = switchMode_cases [of "map lowerByte" "''Std''" "defaultSession\<lparr>mode := rawMode\<rparr>"
      quoteBytes 0 "Int64 7" "[]"]
  note w3 = switchMode_cases [of "map lowerByte" "''xyz''" defaultSession quoteBytes 0 "Int64 7" "[]"]
  have a1: "switchMode (map lowerByte) [''RAW''] defaultSession =
      ([], defaultSession\<lparr>mode := rawMode\<rparr>)"
    and a2: "printReply quoteBytes 0 (Int64 7)
       (mode (snd (switchMode (map lowerByte) [''RAW''] defaultSession))) =
       printRawReply 0 (Int64 7)"
    using w1 h1 by blast+
  have a: "switchMode (map lowerByte) [''RAW''] defaultSession = ([], defaultSession\<lparr>mode := rawMode\<rparr>) \<and>
     printReply quoteBytes 0 (Int64 7)
       (mode (snd (switchMode (map lowerByte) [''RAW''] defaultSession))) = ''7''"
    using a1 a2 r7 by (simp only: simp_thms)
  have b1: "switchMode (map lowerByte) [''Std''] (defaultSession\<lparr>mode := rawMode\<rparr>) =
       ([], defaultSession\<lparr>mode := rawMode\<rparr>\<lparr>mode := stdMode\<rparr>)"
    and b2: "printReply quoteBytes 0 (Int64 7)
       (mode (snd (switchMode (map lowerByte) [''Std''] (defaultSession\<lparr>mode := rawMode\<rparr>)))) =
       printStdReply quoteBytes 0 (Int64 7)"
    using w2 h2 by blast+
  have b: "switchMode (map lowerByte) [''Std''] (defaultSession\<lparr>mode := rawMode\<rparr>) =
       ([], defaultSession\<lparr>mode := stdMode\<rparr>) \<and>
     printReply quoteBytes 0 (Int64 7)
       (mode (snd (switchMode (map lowerByte) [''Std''] (defaultSession\<lparr>mode := rawMode\<rparr>)))) =
       ''(integer) 7''"
    using b1 b2 s7 by simp
  have n2: "length [''raw'', ''std''] \<noteq> 1" by simp
  have n0: "length ([] :: string list) \<noteq> 1" by simp
  have c: "switchMode (map lowerByte) [''raw'', ''std''] defaultSession =
     (''invalid args. Should be MODE [raw|std]'' @ [newline], defaultSession)"
    using w1 n2 by blast
  have d: "switchMode (map lowerByte) [''xyz''] defaultSession =
     (''invalid args. Should be MODE [raw|std]'' @ [newline], defaultSession)"
    using w3 h3 by blast
  have e: "switchMode (map lowerByte) [] defaultSession =
     (''invalid args. Should be MODE [raw|std]'' @ [newline], defaultSession)"
    using w3 n0 by blast
  show ?thesis
    using h1 h2 h3 n2 a b c d e by blast
qed

section \<open>Properties of the decimal parser\<close>

lemma parseUintLoop_cases:
  "parseUintLoop n s = (0, Some ErrSyntax) \<or> parseUintLoop n s = (maxUint64, Some ErrRange) \<or>
   snd (parseUintLoop n s) = None"
  by (induction s arbitrary: n) auto

lemma ParseUint_cases:
  "ParseUint s = (0, Some ErrSyntax) \<or> ParseUint s = (maxUint64, Some ErrRange) \<or>
   snd (ParseUint s) = None"
  using parseUintLoop_cases [of 0 s] by (auto simp: ParseUint_def)

lemma ParseInt_errors:
  "(snd (ParseInt s) = Some ErrSyntax \<longrightarrow> fst (ParseInt s) = 0) \<and>
   (snd (ParseInt s) = Some ErrRange \<longrightarrow>
      fst (ParseInt s) = 2 ^ 63 - 1 \<or> fst (ParseInt s) = - (2 ^ 63))"
  by (auto simp: ParseInt_def Let_def split: prod.splits if_splits)

lemma Atoi_errors:
  "(snd (Atoi s) = Some ErrSyntax \<longrightarrow> fst (Atoi s) = 0) \<and>
   (snd (Atoi s) = Some ErrRange \<longrightarrow>
      fst (Atoi s) = 2 ^ 63 - 1 \<or> fst (Atoi s) = - (2 ^ 63))"
  using ParseInt_errors [of s]
  by (auto simp: Atoi_def Let_def split: option.splits if_splits)

lemma isDigit_digitChar: "d < 10 \<Longrightarrow> isDigit (digitChar d) \<and> digitVal (digitChar d) = d"
  by (simp add: isDigit_def digitChar_def digitVal_def)

lemma digitChar_not_sign: "d < 10 \<Longrightarrow> digitChar d \<noteq> CHR ''-'' \<and> digitChar d \<noteq> CHR ''+''"
  using isDigit_digitChar [of d] by (auto simp: isDigit_def)

lemma showNat_nonempty: "showNat n \<noteq> []"
  by (subst showNat.simps) simp

lemma hd_showNat: "isDigit (hd (showNat n))"
proof (induction n rule: showNat.induct)
  case (1 n)
  show ?case
  proof (cases "n < 10")
    case True
    then show ?thesis by (subst showNat.simps) (simp add: isDigit_digitChar)
  next
    case False
    with 1 have "isDigit (hd (showNat (n div 10)))" by simp
    with False show ?thesis
      by (subst showNat.simps) (simp add: showNat_nonempty)
  qed
qed

lemma atoiLoop_snoc:
  "atoiLoop a (xs @ [c]) =
     (case atoiLoop a xs of None \<Rightarrow> None
      | Some v \<Rightarrow> if isDigit c then Some (v * 10 + digitVal c) else None)"
  by (induction xs arbitrary: a) auto

lemma atoiLoop_showNat: "atoiLoop 0 (showNat n) = Some n"
proof (induction n rule: showNat.induct)
  case (1 n)
  show ?case
  proof (cases "n < 10")
    case True
    then show ?thesis by (subst showNat.simps) (simp add: isDigit_digitChar)
  next
    case False
    with 1 have ih: "atoiLoop 0 (showNat (n div 10)) = Some (n div 10)" by simp
    have "n mod 10 < 10" by simp
    then have d: "isDigit (digitChar (n mod 10)) \<and> digitVal (digitChar (n mod 10)) = n mod 10"
      by (rule isDigit_digitChar)
    have "showNat n = showNat (n div 10) @ [digitChar (n mod 10)]"
      using False by (subst showNat.simps) simp
    then show ?thesis
      using ih d by (simp add: atoiLoop_snoc)
  qed
qed

lemma parseUintLoop_snoc:
  "parseUintLoop a (xs @ [c]) =
     (case parseUintLoop a xs of
        (v, None) \<Rightarrow> parseUintLoop v [c]
      | (v, Some e) \<Rightarrow> (v, Some e))"
  by (induction xs arbitrary: a) auto

lemma parseUintLoop_showNat: "n \<le> maxUint64 \<Longrightarrow> parseUintLoop 0 (showNat n) = (n, None)"
proof (induction n rule: showNat.induct)
  case (1 n)
  show ?case
  proof (cases "n < 10")
    case True
    then show ?thesis
      by (subst showNat.simps) (simp add: isDigit_digitChar maxUint64_def)
  next
    case False
    have le: "n div 10 \<le> maxUint64" using "1.prems" by simp
    with 1 False have ih: "parseUintLoop 0 (showNat (n div 10)) = (n div 10, None)" by simp
    have "n mod 10 < 10" by simp
    then have d: "isDigit (digitChar (n mod 10)) \<and> digitVal (digitChar (n mod 10)) = n mod 10"
      by (rule isDigit_digitChar)
    have c1: "\<not> n div 10 \<ge> maxUint64 div 10 + 1"
      using "1.prems" by (simp add: div_le_mono)
    have c2: "n div 10 * 10 + n mod 10 = n" by simp
    have "showNat n = showNat (n div 10) @ [digitChar (n mod 10)]"
      using False by (subst showNat.simps) simp
    then show ?thesis
      using ih d c1 c2 "1.prems" by (simp add: parseUintLoop_snoc)
  qed
qed


lemma ParseUint_showNat: "n \<le> maxUint64 \<Longrightarrow> ParseUint (showNat n) = (n, None)"
  by (simp add: ParseUint_def showNat_nonempty parseUintLoop_showNat)

lemma hd_showNat_not_sign: "hd (showNat n) \<noteq> CHR ''-'' \<and> hd (showNat n) \<noteq> CHR ''+''"
  using hd_showNat [of n] by (auto simp: isDigit_def)

lemma Atoi_showNat: "n < 2 ^ 63 \<Longrightarrow> Atoi (showNat n) = (int n, None)"
proof -
  assume n: "n < 2 ^ 63"
  then have "n \<le> maxUint64" by (simp add: maxUint64_def)
  then have pu: "ParseUint (showNat n) = (n, None)" by (rule ParseUint_showNat)
  have pi: "ParseInt (showNat n) = (int n, None)"
    using n pu hd_showNat_not_sign [of n]
    by (simp add: ParseInt_def showNat_nonempty)
  show ?thesis
    using pi hd_showNat_not_sign [of n]
    by (simp add: Atoi_def showNat_nonempty atoiLoop_showNat)
qed

lemma Atoi_minus_showNat: "n \<le> 2 ^ 63 \<Longrightarrow> Atoi (CHR ''-'' # showNat n) = (- int n, None)"
proof -
  assume n: "n \<le> 2 ^ 63"
  then have "n \<le> maxUint64" by (simp add: maxUint64_def)
  then have pu: "ParseUint (showNat n) = (n, None)" by (rule ParseUint_showNat)
  have pi: "ParseInt (CHR ''-'' # showNat n) = (- int n, None)"
    using n pu by (simp add: ParseInt_def)
  show ?thesis
    using pi by (simp add: Atoi_def showNat_nonempty atoiLoop_showNat)
qed

lemma Atoi_fmtD: "- (2 ^ 63) \<le> i \<Longrightarrow> i < 2 ^ 63 \<Longrightarrow> Atoi (fmtD i) = (i, None)"
proof (cases "i < 0")
  case True
  assume "- (2 ^ 63) \<le> i"
  then have "nat (- i) \<le> 2 ^ 63" by simp
  then show ?thesis using True Atoi_minus_showNat [of "nat (- i)"] by (simp add: fmtD_def)
next
  case False
  assume "i < 2 ^ 63"
  then have "nat i < 2 ^ 63" using False by simp
  then show ?thesis using False Atoi_showNat [of "nat i"] by (simp add: fmtD_def)
qed

section \<open>Properties of the command sender\<close>

lemma cliConnect_ok:
  "client st \<noteq> None \<or> pingErr S = None \<Longrightarrow> cliConnect S st = ([], Return (connected st))"
  by (auto simp: cliConnect_def connected_def sendPing_def)

lemma cliConnect_fail:
  "client st = None \<Longrightarrow> pingErr S = Some e \<Longrightarrow> cliConnect S st = (e @ [newline], Exit 1)"
  by (simp add: cliConnect_def sendPing_def)

lemma cliConnect_cases:
  "cliConnect S st = ([], Return (connected st)) \<or>
   (\<exists>e. cliConnect S st = (e @ [newline], Exit 1) \<and> client st = None \<and> pingErr S = Some e)"
  by (cases "client st"; cases "pingErr S") (auto simp: cliConnect_def connected_def sendPing_def)

text \<open>
  C1 fails on the code. Whatever the tokens after the first are, the one request that
  \<open>cliSendCommand\<close> sends holds two arguments: the first token in lower case and the
  empty string. For \<open>SET key value\<close> the store receives \<open>set\<close> and an empty argument;
  \<open>key\<close> and \<open>value\<close> are never sent.
\<close>

theorem cliSendCommand_request:
  "fst (snd (cliSendCommand umap q S (c # cs) st)) =
     (if client st = None \<and> pingErr S \<noteq> None then [] else [[ToLower umap c, []]]) \<and>
   fst (snd (cliSendCommand (map lowerByte) quoteBytes okStore
               [''SET'', ''key'', ''value''] defaultSession)) = [[''set'', []]]"
proof -
  have a: "fst (snd (cliSendCommand umap q S (c # cs) st)) =
     (if client st = None \<and> pingErr S \<noteq> None then [] else [[ToLower umap c, []]])"
  proof (cases "client st = None \<and> pingErr S \<noteq> None")
    case True
    then obtain e where "pingErr S = Some e" by auto
    with True have "cliConnect S st = (e @ [newline], Exit 1)" by (simp add: cliConnect_fail)
    with True show ?thesis by (simp add: cliSendCommand_def)
  next
    case False
    then have "cliConnect S st = ([], Return (connected st))" by (auto intro: cliConnect_ok)
    with False show ?thesis
      by (auto simp: cliSendCommand_def Let_def split: sum.splits)
  qed
  have b: "fst (snd (cliSendCommand (map lowerByte) quoteBytes okStore
               [''SET'', ''key'', ''value''] defaultSession)) = [[''set'', []]]"
    by code_simp
  show ?thesis using a b by blast
qed

lemma cliSendCommand_select_ok:
  assumes "1 < length cmds" and "ToLower umap (cmds ! 0) = ''select''"
    and "client st \<noteq> None \<or> pingErr S = None"
    and "doResult S [''select'', []] = Inr r"
  shows "cliSendCommand umap q S cmds st =
           (printReply q 0 r (mode st) @ [newline], [[''select'', []]],
            Return (0, (connected st)\<lparr>dbn := fst (Atoi (cmds ! 1))\<rparr>))"
proof -
  have c: "cliConnect S st = ([], Return (connected st))" using assms(3) by (rule cliConnect_ok)
  have m: "mode (connected st) = mode st" by (simp add: connected_def)
  have ne: "cmds \<noteq> []" using assms(1) by auto
  with assms c m show ?thesis
    by (simp add: cliSendCommand_def Let_def ToLower_select)
qed

lemma cliSendCommand_select_err:
  assumes "ToLower umap (cmds ! 0) = ''select''" and "cmds \<noteq> []"
    and "client st \<noteq> None \<or> pingErr S = None"
    and "doResult S [''select'', []] = Inl e"
  shows "cliSendCommand umap q S cmds st =
           (''(error) '' @ e @ [newline], [[''select'', []]], Return (- 1, connected st))"
proof -
  have c: "cliConnect S st = ([], Return (connected st))" using assms(3) by (rule cliConnect_ok)
  with assms show ?thesis
    by (simp add: cliSendCommand_def Let_def ToLower_select)
qed

lemma cliSendCommand_select_panic:
  assumes "ToLower umap c = ''select''"
    and "client st \<noteq> None \<or> pingErr S = None"
    and "doResult S [''select'', []] = Inr r"
  shows "cliSendCommand umap q S [c] st =
           ([], [[''select'', []]], Panic ''index out of range [1] with length 1'')"
proof -
  have c: "cliConnect S st = ([], Return (connected st))" using assms(2) by (rule cliConnect_ok)
  with assms show ?thesis
    by (simp add: cliSendCommand_def Let_def ToLower_select)
qed

lemma cliSendCommand_panic_only:
  assumes "isPanic (snd (snd (cliSendCommand umap q S cmds st)))"
  shows "length cmds = 1 \<and> ToLower umap (ToLower umap (cmds ! 0)) = ''select'' \<and>
         \<not> isl (doResult S [ToLower umap (cmds ! 0), []])"
proof -
  from cliConnect_cases [of S st] show ?thesis
  proof
    assume c: "cliConnect S st = ([], Return (connected st))"
    have l: "cmds \<noteq> [] \<Longrightarrow> \<not> Suc 0 < length cmds \<Longrightarrow> length cmds = Suc 0"
      by (cases cmds) auto
    from assms c show ?thesis
      by (cases "doResult S [ToLower umap (cmds ! 0), []]")
         (auto simp: cliSendCommand_def Let_def split: if_splits dest: l)
  next
    assume "\<exists>e. cliConnect S st = (e @ [newline], Exit 1) \<and> client st = None \<and> pingErr S = Some e"
    then obtain e where "cliConnect S st = (e @ [newline], Exit 1)" by blast
    with assms show ?thesis by (simp add: cliSendCommand_def)
  qed
qed

text \<open>
  C8 fails on the code at one input: the command \<open>select\<close> given alone, with a store that
  answers the request without error. The process then neither exits with 0 nor with
  the code for an error: it panics on the read of the missing second token.
\<close>

theorem main_select_alone_panics:
  "mainArgs (map lowerByte) quoteBytes okStore False [''select''] defaultSession =
     ([], [[''select'', []]], Inr ''index out of range [1] with length 1'')"
  by code_simp

text \<open>
  The exit codes in terms of what \<open>client.Do(...).Result()\<close> returns: 1 when the probe
  fails, with no request sent; \<open>- 1\<close> when the result is an error; 0 when the result is a
  reply value and the command is not a lone \<open>select\<close>.
\<close>

lemma mainArgs_exit_codes:
  "(client st = None \<and> pingErr S = Some e \<longrightarrow>
      mainArgs umap q S raw args st = (e @ [newline], [], Inl 1)) \<and>
   ((client st \<noteq> None \<or> pingErr S = None) \<and> doResult S [ToLower umap c, []] = Inl e \<longrightarrow>
      snd (snd (mainArgs umap q S raw (c # cs) st)) = Inl (- 1)) \<and>
   ((client st \<noteq> None \<or> pingErr S = None) \<and> doResult S [ToLower umap c, []] = Inr r \<and>
    (cs \<noteq> [] \<or> ToLower umap (ToLower umap c) \<noteq> ''select'') \<longrightarrow>
      snd (snd (mainArgs umap q S raw (c # cs) st)) = Inl 0)"
proof -
  let ?st0 = "st\<lparr>mode := (if raw then rawMode else stdMode)\<rparr>"
  have a: "client st = None \<and> pingErr S = Some e \<longrightarrow>
      mainArgs umap q S raw args st = (e @ [newline], [], Inl 1)"
  proof
    assume h: "client st = None \<and> pingErr S = Some e"
    then have "cliConnect S ?st0 = (e @ [newline], Exit 1)" by (simp add: cliConnect_fail)
    then show "mainArgs umap q S raw args st = (e @ [newline], [], Inl 1)"
      by (simp add: mainArgs_def noninteractive_def cliSendCommand_def)
  qed
  have b: "(client st \<noteq> None \<or> pingErr S = None) \<and> doResult S [ToLower umap c, []] = Inl e \<longrightarrow>
      snd (snd (mainArgs umap q S raw (c # cs) st)) = Inl (- 1)"
  proof
    assume h: "(client st \<noteq> None \<or> pingErr S = None) \<and> doResult S [ToLower umap c, []] = Inl e"
    then have "client ?st0 \<noteq> None \<or> pingErr S = None" by simp
    then have "cliConnect S ?st0 = ([], Return (connected ?st0))" by (rule cliConnect_ok)
    with h show "snd (snd (mainArgs umap q S raw (c # cs) st)) = Inl (- 1)"
      by (simp add: mainArgs_def noninteractive_def cliSendCommand_def Let_def)
  qed
  have c: "(client st \<noteq> None \<or> pingErr S = None) \<and> doResult S [ToLower umap c, []] = Inr r \<and>
    (cs \<noteq> [] \<or> ToLower umap (ToLower umap c) \<noteq> ''select'') \<longrightarrow>
      snd (snd (mainArgs umap q S raw (c # cs) st)) = Inl 0"
  proof
    assume h: "(client st \<noteq> None \<or> pingErr S = None) \<and> doResult S [ToLower umap c, []] = Inr r \<and>
      (cs \<noteq> [] \<or> ToLower umap (ToLower umap c) \<noteq> ''select'')"
    then have "client ?st0 \<noteq> None \<or> pingErr S = None" by simp
    then have "cliConnect S ?st0 = ([], Return (connected ?st0))" by (rule cliConnect_ok)
    with h show "snd (snd (mainArgs umap q S raw (c # cs) st)) = Inl 0"
      by (auto simp: mainArgs_def noninteractive_def cliSendCommand_def Let_def)
  qed
  show ?thesis using a b c by blast
qed

text \<open>
  C9, as the claim states it, fails: a second token that is a decimal number too large
  for an \<open>int\<close> does not parse, and the index becomes the largest \<open>int\<close>, not zero.
\<close>

theorem select_out_of_range_not_zero:
  "snd (Atoi ''9223372036854775808'') = Some ErrRange \<and>
   cliSendCommand (map lowerByte) quoteBytes okStore [''select'', ''9223372036854775808'']
       defaultSession =
     (''OK'' @ [newline], [[''select'', []]],
      Return (0, defaultSession\<lparr>client := Some (''127.0.0.1:6379'', []),
                                  dbn := 9223372036854775807\<rparr>)) \<and>
   (9223372036854775807 :: int) \<noteq> 0"
proof -
  have a: "Atoi ''9223372036854775808'' = (9223372036854775807, Some ErrRange)"
    by (simp add: Atoi_def ParseInt_def ParseUint_def isDigit_def digitVal_def maxUint64_def)
  have l: "ToLower (map lowerByte) ([''select'', ''9223372036854775808''] ! 0) = ''select''"
    by code_simp
  have p: "client defaultSession \<noteq> None \<or> pingErr okStore = None"
    by (simp add: okStore_def)
  have d: "doResult okStore [''select'', []] = Inr (Str ''OK'')"
    by (simp add: okStore_def)
  have c: "connected defaultSession = defaultSession\<lparr>client := Some (''127.0.0.1:6379'', [])\<rparr>"
    by (simp add: connected_def defaultSession_def addr_def)
  have m: "printReply quoteBytes 0 (Str ''OK'') (mode defaultSession) = ''OK''"
    by (simp add: printReply_def defaultSession_def)
  have "cliSendCommand (map lowerByte) quoteBytes okStore [''select'', ''9223372036854775808'']
       defaultSession =
     (printReply quoteBytes 0 (Str ''OK'') (mode defaultSession) @ [newline], [[''select'', []]],
      Return (0, (connected defaultSession)\<lparr>dbn := fst (Atoi ([''select'', ''9223372036854775808''] ! 1))\<rparr>))"
    by (rule cliSendCommand_select_ok [OF _ l p d]) simp
  then show ?thesis using a c m by simp
qed

text \<open>
  C9, amended: for a command of at least two tokens whose first token is \<open>select\<close> in any
  letter case, sent on an open or newly opened connection: if the store answers without
  error, the index becomes the value \<open>strconv.Atoi\<close> returns for the second token, its
  error ignored; if the store answers with an error, the index is unchanged. The value
  returned is the integer itself for the decimal form of any 64-bit integer, zero on a
  syntax error, and the largest or the smallest 64-bit integer on a range error.
\<close>

theorem select_sets_dbn:
  assumes "1 < length cmds" and "ToLower umap (cmds ! 0) = ''select''"
    and "client st \<noteq> None \<or> pingErr S = None"
  shows "(doResult S [''select'', []] = Inr r \<longrightarrow>
            cliSendCommand umap q S cmds st =
              (printReply q 0 r (mode st) @ [newline], [[''select'', []]],
               Return (0, (connected st)\<lparr>dbn := fst (Atoi (cmds ! 1))\<rparr>))) \<and>
         (doResult S [''select'', []] = Inl e \<longrightarrow>
            cliSendCommand umap q S cmds st =
              (''(error) '' @ e @ [newline], [[''select'', []]], Return (- 1, connected st))) \<and>
         dbn (connected st) = dbn st \<and>
         (- (2 ^ 63) \<le> i \<and> i < 2 ^ 63 \<longrightarrow> Atoi (fmtD i) = (i, None)) \<and>
         (snd (Atoi s) = Some ErrSyntax \<longrightarrow> fst (Atoi s) = 0) \<and>
         (snd (Atoi s) = Some ErrRange \<longrightarrow>
            fst (Atoi s) = 2 ^ 63 - 1 \<or> fst (Atoi s) = - (2 ^ 63))"
proof -
  have ne: "cmds \<noteq> []" using assms(1) by auto
  have a: "doResult S [''select'', []] = Inr r \<longrightarrow>
            cliSendCommand umap q S cmds st =
              (printReply q 0 r (mode st) @ [newline], [[''select'', []]],
               Return (0, (connected st)\<lparr>dbn := fst (Atoi (cmds ! 1))\<rparr>))"
    using cliSendCommand_select_ok [OF assms(1) assms(2) assms(3)] by blast
  have b: "doResult S [''select'', []] = Inl e \<longrightarrow>
            cliSendCommand umap q S cmds st =
              (''(error) '' @ e @ [newline], [[''select'', []]], Return (- 1, connected st))"
    using cliSendCommand_select_err [OF assms(2) ne assms(3)] by blast
  have c: "dbn (connected st) = dbn st" by (simp add: connected_def)
  have d: "- (2 ^ 63) \<le> i \<and> i < 2 ^ 63 \<longrightarrow> Atoi (fmtD i) = (i, None)"
    using Atoi_fmtD [of i] by blast
  show ?thesis using a b c d Atoi_errors [of s] by blast
qed

theorem select_sets_dbn_witness:
  "1 < length [''SELECT'', ''3''] \<and>
   ToLower (map lowerByte) ([''SELECT'', ''3''] ! 0) = ''select'' \<and>
   doResult okStore [''select'', []] = Inr (Str ''OK'') \<and>
   cliSendCommand (map lowerByte) quoteBytes okStore [''SELECT'', ''3''] defaultSession =
     (''OK'' @ [newline], [[''select'', []]],
      Return (0, defaultSession\<lparr>client := Some (''127.0.0.1:6379'', []), dbn := 3\<rparr>)) \<and>
   doResult errStore [''select'', []] = Inl ''ERR invalid DB index'' \<and>
   cliSendCommand (map lowerByte) quoteBytes errStore [''SELECT'', ''3''] defaultSession =
     (''(error) ERR invalid DB index'' @ [newline], [[''select'', []]],
      Return (- 1, defaultSession\<lparr>client := Some (''127.0.0.1:6379'', [])\<rparr>)) \<and>
   Atoi (fmtD 3) = (3, None) \<and>
   snd (Atoi ''3x'') = Some ErrSyntax \<and> fst (Atoi ''3x'') = 0"
proof -
  have n: "1 < length [''SELECT'', ''3'']" by simp
  have l: "ToLower (map lowerByte) ([''SELECT'', ''3''] ! 0) = ''select''" by code_simp
  have p1: "client defaultSession \<noteq> None \<or> pingErr okStore = None" by (simp add: okStore_def)
  have p2: "client defaultSession \<noteq> None \<or> pingErr errStore = None" by (simp add: errStore_def)
  have d1: "doResult okStore [''select'', []] = Inr (Str ''OK'')" by (simp add: okStore_def)
  have d2: "doResult errStore [''select'', []] = Inl ''ERR invalid DB index''"
    by (simp add: errStore_def)
  have c: "connected defaultSession = defaultSession\<lparr>client := Some (''127.0.0.1:6379'', [])\<rparr>"
    by (simp add: connected_def defaultSession_def addr_def)
  have m: "printReply quoteBytes 0 (Str ''OK'') (mode defaultSession) = ''OK''"
    by (simp add: printReply_def defaultSession_def)
  have a3: "Atoi ''3'' = (3, None)"
    by (simp add: Atoi_def isDigit_def digitVal_def)
  have f3: "fmtD 3 = ''3''" by code_simp
  have ax: "Atoi ''3x'' = (0, Some ErrSyntax)"
    by (simp add: Atoi_def isDigit_def digitVal_def)
  note w1 = select_sets_dbn [OF n l p1, of "Str ''OK''" quoteBytes "''x''" 3 "''3x''"]
  note w2 = select_sets_dbn [OF n l p2, of "Str ''OK''" quoteBytes "''ERR invalid DB index''" 3 "''3x''"]
  show ?thesis
    using w1 w2 n l d1 d2 c m a3 f3 ax by simp
qed

text \<open>
  C10: the read of the second token is reached exactly when the request succeeded and
  the command is \<open>select\<close>; the length of the token list is not looked at. With two or
  more tokens \<open>cliSendCommand\<close> never panics; with the single token \<open>select\<close>, in any
  letter case, and a request that succeeds, the read is out of range and the call panics;
  and a panic of \<open>cliSendCommand\<close> is always this one.
\<close>

theorem select_index_guard:
  "(1 < length cmds \<longrightarrow> \<not> isPanic (snd (snd (cliSendCommand umap q S cmds st)))) \<and>
   ((client st \<noteq> None \<or> pingErr S = None) \<and> ToLower umap c = ''select'' \<and>
    doResult S [''select'', []] = Inr r \<longrightarrow>
      cliSendCommand umap q S [c] st =
        ([], [[''select'', []]], Panic ''index out of range [1] with length 1'')) \<and>
   (isPanic (snd (snd (cliSendCommand umap q S cmds st))) \<longrightarrow>
      length cmds = 1 \<and> ToLower umap (ToLower umap (cmds ! 0)) = ''select'' \<and>
      \<not> isl (doResult S [ToLower umap (cmds ! 0), []]))"
proof -
  have a: "isPanic (snd (snd (cliSendCommand umap q S cmds st))) \<longrightarrow>
      length cmds = 1 \<and> ToLower umap (ToLower umap (cmds ! 0)) = ''select'' \<and>
      \<not> isl (doResult S [ToLower umap (cmds ! 0), []])"
    using cliSendCommand_panic_only [of umap q S cmds st] by blast
  then have b: "1 < length cmds \<longrightarrow> \<not> isPanic (snd (snd (cliSendCommand umap q S cmds st)))"
    by auto
  have c: "(client st \<noteq> None \<or> pingErr S = None) \<and> ToLower umap c = ''select'' \<and>
    doResult S [''select'', []] = Inr r \<longrightarrow>
      cliSendCommand umap q S [c] st =
        ([], [[''select'', []]], Panic ''index out of range [1] with length 1'')"
    using cliSendCommand_select_panic [of umap c st S r q] by blast
  show ?thesis using a b c by blast
qed

theorem select_index_guard_witness:
  "1 < length [''select'', ''1''] \<and>
   \<not> isPanic (snd (snd (cliSendCommand (map lowerByte) quoteBytes okStore [''select'', ''1'']
                           defaultSession))) \<and>
   ToLower (map lowerByte) ''SELECT'' = ''select'' \<and>
   doResult okStore [''select'', []] = Inr (Str ''OK'') \<and>
   cliSendCommand (map lowerByte) quoteBytes okStore [''SELECT''] defaultSession =
     ([], [[''select'', []]], Panic ''index out of range [1] with length 1'') \<and>
   isPanic (snd (snd (cliSendCommand (map lowerByte) quoteBytes okStore [''SELECT'']
                         defaultSession))) \<and>
   length [''SELECT''] = 1"
proof -
  have n: "1 < length [''select'', ''1'']" by simp
  have l: "ToLower (map lowerByte) ''SELECT'' = ''select''" by code_simp
  have p: "client defaultSession \<noteq> None \<or> pingErr okStore = None" by (simp add: okStore_def)
  have d: "doResult okStore [''select'', []] = Inr (Str ''OK'')" by (simp add: okStore_def)
  note w1 = select_index_guard [of "[''select'', ''1'']" "map lowerByte" quoteBytes okStore
      defaultSession "''SELECT''" "Str ''OK''"]
  note w2 = select_index_guard [of "[''SELECT'']" "map lowerByte" quoteBytes okStore
      defaultSession "''SELECT''" "Str ''OK''"]
  have e: "cliSendCommand (map lowerByte) quoteBytes okStore [''SELECT''] defaultSession =
     ([], [[''select'', []]], Panic ''index out of range [1] with length 1'')"
    using w2 p l d by blast
  show ?thesis
    using w1 n l d e by simp
qed

section \<open>Properties of the tokenizer\<close>

lemma findAllString_skip: "findAllString (dropWhile isSpace l) = findAllString l"
  by (induction l) auto

lemma findAllString_empty: "(findAllString l = []) = list_all isSpace l"
  by (induction l rule: findAllString.induct) (auto split: option.splits)

lemma quotedSpan_Some:
  assumes "quotedSpan qc cs = Some (body, rest)"
  shows "cs = body @ qc # rest \<and> qc \<notin> set body \<and> newline \<notin> set body"
proof -
  let ?P = "\<lambda>c. c \<noteq> qc \<and> c \<noteq> newline"
  from assms have b: "body = takeWhile ?P cs" and d: "dropWhile ?P cs = qc # rest"
    by (auto simp: quotedSpan_def split: list.splits if_splits)
  have "cs = takeWhile ?P cs @ dropWhile ?P cs" by simp
  with b d have "cs = body @ qc # rest" by simp
  moreover have "\<forall>x \<in> set body. ?P x" unfolding b by (auto dest: set_takeWhileD)
  ultimately show ?thesis by auto
qed

lemma quotedBy_span: "qc \<notin> set body \<Longrightarrow> newline \<notin> set body \<Longrightarrow> quotedBy qc (qc # body @ [qc])"
  by (simp add: quotedBy_def butlast_append)

lemma run_shape:
  "\<not> isSpace c \<Longrightarrow> noSpace (c # takeWhile (\<lambda>d. \<not> isSpace d) cs) \<and>
     (dropWhile (\<lambda>d. \<not> isSpace d) cs = [] \<or> isSpace (hd (dropWhile (\<lambda>d. \<not> isSpace d) cs)))"
proof -
  assume c: "\<not> isSpace c"
  have "list_all (\<lambda>d. \<not> isSpace d) (takeWhile (\<lambda>d. \<not> isSpace d) cs)"
    by (auto simp: list_all_iff dest: set_takeWhileD)
  moreover have "dropWhile (\<lambda>d. \<not> isSpace d) cs = [] \<or> isSpace (hd (dropWhile (\<lambda>d. \<not> isSpace d) cs))"
    using hd_dropWhile [of "\<lambda>d. \<not> isSpace d" cs] by auto
  ultimately show ?thesis using c by (simp add: noSpace_def)
qed

lemma first_token_nonspace:
  assumes "\<not> isSpace c" and "findAllString (c # cs) = t # ts"
  shows "\<exists>rest. c # cs = t @ rest \<and> ts = findAllString rest \<and>
           (quotedBy squote t \<or> quotedBy dquote t \<or>
            (t \<noteq> [] \<and> noSpace t \<and> (rest = [] \<or> isSpace (hd rest))))"
proof (cases "if c = squote \<or> c = dquote then quotedSpan c cs else None")
  case None
  with assms have t: "t = c # takeWhile (\<lambda>d. \<not> isSpace d) cs"
    and ts: "ts = findAllString (dropWhile (\<lambda>d. \<not> isSpace d) cs)" by auto
  have "c # cs = t @ dropWhile (\<lambda>d. \<not> isSpace d) cs" using t by simp
  with t ts run_shape [OF assms(1), of cs] show ?thesis by blast
next
  case (Some p)
  obtain body rest where p: "p = (body, rest)" by (cases p)
  from Some p have q: "quotedSpan c cs = Some (body, rest)" and c: "c = squote \<or> c = dquote"
    by (auto split: if_splits)
  from Some p assms have t: "t = c # body @ [c]" and ts: "ts = findAllString rest" by auto
  from quotedSpan_Some [OF q] have cs: "cs = body @ c # rest" and nb: "c \<notin> set body" "newline \<notin> set body"
    by auto
  have "quotedBy c t" unfolding t using nb by (rule quotedBy_span)
  moreover have "c # cs = t @ rest" using t cs by simp
  ultimately show ?thesis using c ts by blast
qed

lemma first_token:
  assumes "findAllString l = t # ts"
  shows "\<exists>rest. dropWhile isSpace l = t @ rest \<and> ts = findAllString rest \<and>
           (quotedBy squote t \<or> quotedBy dquote t \<or>
            (t \<noteq> [] \<and> noSpace t \<and> (rest = [] \<or> isSpace (hd rest))))"
proof (cases "dropWhile isSpace l")
  case Nil
  have "findAllString (dropWhile isSpace l) = findAllString l" by (rule findAllString_skip)
  then have "findAllString l = []" unfolding Nil by simp
  with assms show ?thesis by simp
next
  case (Cons c cs)
  then have ns: "\<not> isSpace c" using hd_dropWhile [of isSpace l] by auto
  have "findAllString (c # cs) = t # ts" using assms Cons findAllString_skip [of l] by simp
  from first_token_nonspace [OF ns this] Cons show ?thesis by simp
qed

lemma all_tokens:
  "\<forall>t \<in> set (findAllString l). quotedBy squote t \<or> quotedBy dquote t \<or> (t \<noteq> [] \<and> noSpace t)"
proof (induction l rule: findAllString.induct)
  case 1
  then show ?case by simp
next
  case (2 c cs)
  show ?case
  proof (cases "isSpace c")
    case True
    with 2 show ?thesis by simp
  next
    case False
    show ?thesis
    proof (cases "findAllString (c # cs)")
      case Nil
      then show ?thesis by simp
    next
      case (Cons t ts)
      from first_token_nonspace [OF False Cons] obtain rest where
        r: "c # cs = t @ rest" "ts = findAllString rest"
        and sh: "quotedBy squote t \<or> quotedBy dquote t \<or> (t \<noteq> [] \<and> noSpace t \<and> (rest = [] \<or> isSpace (hd rest)))"
        by blast
      have "\<forall>u \<in> set ts. quotedBy squote u \<or> quotedBy dquote u \<or> (u \<noteq> [] \<and> noSpace u)"
      proof (cases "if c = squote \<or> c = dquote then quotedSpan c cs else None")
        case None
        with False Cons have "ts = findAllString (dropWhile (\<lambda>d. \<not> isSpace d) cs)" by auto
        with 2(2) [OF False None] show ?thesis by simp
      next
        case (Some p)
        obtain body rest' where p: "p = (body, rest')" by (cases p)
        with Some False Cons have "ts = findAllString rest'" by auto
        with 2(3) [OF False Some p [symmetric]] show ?thesis by simp
      qed
      with sh Cons show ?thesis by auto
    qed
  qed
qed

lemma no_quotes_maximalRuns:
  "squote \<notin> set l \<Longrightarrow> dquote \<notin> set l \<Longrightarrow> findAllString l = maximalRuns l"
proof (induction l rule: maximalRuns.induct)
  case 1
  then show ?case by simp
next
  case (2 c cs)
  show ?case
  proof (cases "isSpace c")
    case True
    with 2 show ?thesis by simp
  next
    case False
    have "set (dropWhile (\<lambda>d. \<not> isSpace d) cs) \<subseteq> set cs" by (rule set_dropWhileD [THEN subsetI])
    with "2.prems" have "squote \<notin> set (dropWhile (\<lambda>d. \<not> isSpace d) cs)"
      "dquote \<notin> set (dropWhile (\<lambda>d. \<not> isSpace d) cs)" by auto
    with 2(2) [OF False] have "findAllString (dropWhile (\<lambda>d. \<not> isSpace d) cs) =
       maximalRuns (dropWhile (\<lambda>d. \<not> isSpace d) cs)" by simp
    with False "2.prems" show ?thesis by auto
  qed
qed

text \<open>
  C6, as the claim states it, fails: a run of non-whitespace characters that follows a
  quoted span directly is a token of its own, and it is not a maximal run of the line. In
  the line \<open>'a'b\<close> the tokens are \<open>'a'\<close> and \<open>b\<close>; the only maximal run of non-whitespace
  characters of that line is the whole line.
\<close>

theorem token_after_quote_not_maximal:
  "findAllString [squote, CHR ''a'', squote, CHR ''b''] = [[squote, CHR ''a'', squote], ''b''] \<and>
   \<not> quotedBy squote ''b'' \<and> \<not> quotedBy dquote ''b'' \<and>
   maximalRuns [squote, CHR ''a'', squote, CHR ''b''] = [[squote, CHR ''a'', squote, CHR ''b'']] \<and>
   ''b'' \<notin> set (maximalRuns [squote, CHR ''a'', squote, CHR ''b''])"
  by code_simp

text \<open>
  C6, amended: the tokenizer gives no token exactly for a line of white space only.
  Otherwise it skips the leading white space and the first token is what follows, up to
  the rest of the line, from which the other tokens come in the same way; the token is a
  single-quoted span, a double-quoted span, or a run of non-whitespace characters that
  ends at white space or at the end of the line (it starts where the scan stands, so
  right after a quoted span it is not maximal to the left). Quote characters stay in the
  token. On a line with no quote character the tokens are the maximal runs of
  non-whitespace characters. The line \<open>SET key "hello world"\<close> gives three tokens, the
  third \<open>"hello world"\<close> with its quotes.
\<close>

theorem findAllString_tokens:
  "((findAllString l = []) = list_all isSpace l) \<and>
   (findAllString l = t # ts \<longrightarrow>
      (\<exists>rest. dropWhile isSpace l = t @ rest \<and> ts = findAllString rest \<and>
         (quotedBy squote t \<or> quotedBy dquote t \<or>
          (t \<noteq> [] \<and> noSpace t \<and> (rest = [] \<or> isSpace (hd rest)))))) \<and>
   (\<forall>u \<in> set (findAllString l).
      quotedBy squote u \<or> quotedBy dquote u \<or> (u \<noteq> [] \<and> noSpace u)) \<and>
   (squote \<notin> set l \<and> dquote \<notin> set l \<longrightarrow> findAllString l = maximalRuns l) \<and>
   findAllString (''SET key '' @ [dquote] @ ''hello world'' @ [dquote]) =
     [''SET'', ''key'', [dquote] @ ''hello world'' @ [dquote]]"
proof -
  have e: "findAllString (''SET key '' @ [dquote] @ ''hello world'' @ [dquote]) =
     [''SET'', ''key'', [dquote] @ ''hello world'' @ [dquote]]"
    by code_simp
  show ?thesis
    using findAllString_empty [of l] first_token [of l t ts] all_tokens [of l]
      no_quotes_maximalRuns [of l] e
    by blast
qed

theorem findAllString_tokens_witness:
  "findAllString (''  SET key '' @ [dquote] @ ''hello world'' @ [dquote]) =
     ''SET'' # [''key'', [dquote] @ ''hello world'' @ [dquote]] \<and>
   (\<exists>rest. dropWhile isSpace (''  SET key '' @ [dquote] @ ''hello world'' @ [dquote]) =
             ''SET'' @ rest \<and>
           [''key'', [dquote] @ ''hello world'' @ [dquote]] = findAllString rest \<and>
           (quotedBy squote ''SET'' \<or> quotedBy dquote ''SET'' \<or>
            (''SET'' \<noteq> [] \<and> noSpace ''SET'' \<and> (rest = [] \<or> isSpace (hd rest))))) \<and>
   (quotedBy squote ([dquote] @ ''hello world'' @ [dquote]) \<or>
    quotedBy dquote ([dquote] @ ''hello world'' @ [dquote]) \<or>
    ([dquote] @ ''hello world'' @ [dquote] \<noteq> [] \<and>
     noSpace ([dquote] @ ''hello world'' @ [dquote]))) \<and>
   quotedBy dquote ([dquote] @ ''hello world'' @ [dquote]) \<and>
   \<not> noSpace ([dquote] @ ''hello world'' @ [dquote]) \<and>
   noSpace ''SET'' \<and> \<not> quotedBy squote ''SET'' \<and> \<not> quotedBy dquote ''SET'' \<and>
   squote \<notin> set ''SET key value'' \<and> dquote \<notin> set ''SET key value'' \<and>
   findAllString ''SET key value'' = maximalRuns ''SET key value'' \<and>
   maximalRuns ''SET key value'' = [''SET'', ''key'', ''value'']"
proof -
  let ?l = "''  SET key '' @ [dquote] @ ''hello world'' @ [dquote]"
  let ?hw = "[dquote] @ ''hello world'' @ [dquote]"
  have a: "findAllString ?l = ''SET'' # [''key'', ?hw]"
    by code_simp
  note w = findAllString_tokens [of ?l "''SET''" "[''key'', ?hw]"]
  have b: "\<exists>rest. dropWhile isSpace ?l = ''SET'' @ rest \<and>
           [''key'', ?hw] = findAllString rest \<and>
           (quotedBy squote ''SET'' \<or> quotedBy dquote ''SET'' \<or>
            (''SET'' \<noteq> [] \<and> noSpace ''SET'' \<and> (rest = [] \<or> isSpace (hd rest))))"
    using w a by blast
  have "?hw \<in> set (findAllString ?l)"
    unfolding a by simp
  then have c: "quotedBy squote ?hw \<or> quotedBy dquote ?hw \<or> (?hw \<noteq> [] \<and> noSpace ?hw)"
    using w by blast
  have d: "quotedBy dquote ?hw \<and> \<not> noSpace ?hw \<and>
     noSpace ''SET'' \<and> \<not> quotedBy squote ''SET'' \<and> \<not> quotedBy dquote ''SET''"
    by code_simp
  have e: "squote \<notin> set ''SET key value'' \<and> dquote \<notin> set ''SET key value''"
    by code_simp
  have f: "maximalRuns ''SET key value'' = [''SET'', ''key'', ''value'']"
    by code_simp
  have g: "findAllString ''SET key value'' = maximalRuns ''SET key value''"
    using findAllString_tokens [of "''SET key value''" "''SET''" "[''key'', ''value'']"] e
    by blast
  show ?thesis
    using a b c d e f g by blast
qed

end
